theory Spec2Isabelle
  imports Complex_Main "HOL-Library.Multiset" "HOL-Library.Sublist"
begin

section \<open>JavaScript numbers\<close>

text \<open>
  Every time stamp of the program is a JavaScript number. The model keeps the three
  non-finite values apart from the finite ones, because the source starts a reduction at
  \<open>Infinity\<close> and compares numbers without checking them first. Finite values are
  real numbers: only comparisons of time stamps are modelled, never rounding, and
  \<open>-0\<close> and \<open>+0\<close> (which every comparison identifies) are one value.
\<close>

datatype jsnum = Num real | PosInf | NegInf | NaN

text \<open>The operator \<open><\<close>: false as soon as one side is \<open>NaN\<close>.\<close>

fun js_lt :: "jsnum \<Rightarrow> jsnum \<Rightarrow> bool" where
  "js_lt (Num x) (Num y) = (x < y)"
| "js_lt (Num x) PosInf = True"
| "js_lt NegInf (Num y) = True"
| "js_lt NegInf PosInf = True"
| "js_lt _ _ = False"

text \<open>The operators \<open>==\<close> and \<open>!=\<close> on numbers: \<open>NaN\<close> equals nothing.\<close>

definition js_eq :: "jsnum \<Rightarrow> jsnum \<Rightarrow> bool" where
  "js_eq a b = (a \<noteq> NaN \<and> a = b)"

definition js_ne :: "jsnum \<Rightarrow> jsnum \<Rightarrow> bool" where
  "js_ne a b = (\<not> js_eq a b)"

definition js_gt :: "jsnum \<Rightarrow> jsnum \<Rightarrow> bool" where
  "js_gt a b = js_lt b a"

definition js_le :: "jsnum \<Rightarrow> jsnum \<Rightarrow> bool" where
  "js_le a b = (js_lt a b \<or> js_eq a b)"

text \<open>\<open>Math.min\<close> of two numbers: \<open>NaN\<close> if either is.\<close>

definition js_min :: "jsnum \<Rightarrow> jsnum \<Rightarrow> jsnum" where
  "js_min a b = (if a = NaN \<or> b = NaN then NaN else if js_lt b a then b else a)"

fun js_is_finite :: "jsnum \<Rightarrow> bool" where
  "js_is_finite (Num x) = True"
| "js_is_finite _ = False"

section \<open>Data model\<close>

text \<open>Parsed JSON, as \<open>JSON.parse\<close> returns it (an object's keys are distinct).\<close>

datatype json =
    JNull
  | JBool bool
  | JNum real
  | JStr string
  | JArr "json list"
  | JObj "(string \<times> json) list"

text \<open>
  The payload of an interval. The rendering code tests the spatial type with
  \<open>instanceof\<close> against \<open>SpatialType_Bbox\<close> (whose arguments hold an optional
  colour) and \<open>SpatialType_Caption\<close>; every other kind is \<open>SpatialType_Other\<close>.
\<close>

datatype SpatialType =
    SpatialType_Bbox "string option"
  | SpatialType_Caption
  | SpatialType_Other

record VData =
  spatial_type :: SpatialType
  metadata :: "(string \<times> json) list"

record Bounds =
  t1 :: jsnum
  t2 :: jsnum

record Interval =
  bounds :: Bounds
  data :: VData

datatype error = InvalidRange | DecodeError | TypeError

text \<open>
  Intervals are objects: the timeline mutates the end of an interval that a set holds, and
  removal from a set is by object identity. An interval is therefore a reference into a
  store, and an interval set is a sequence of references. The bounds of an interval are
  held by value: every interval is created with bounds of its own.
\<close>

type_synonym ref = nat

type_synonym store = "ref \<Rightarrow> Interval"

type_synonym IntervalSet = "ref list"

record heap =
  objs :: store
  fresh :: ref

section \<open>The interval module\<close>

text \<open>
  The module \<open>./interval\<close> (\<open>Bounds\<close>, \<open>Interval\<close>, \<open>IntervalSet\<close>) is imported by
  both components; its own source is not available. Its operations are modelled from
  the specification, sections 4.1 to 4.3.
\<close>

text \<open>
  Modelled from the spec: the constructor of \<open>Bounds\<close> is missing.
  \<open>Bounds(t1, t2=t1)\<close> fails with \<open>InvalidRange\<close> if \<open>t1 > t2\<close> or either is
  negative or non-finite; otherwise it stores both values unchanged.
\<close>

definition Bounds_new :: "jsnum \<Rightarrow> jsnum \<Rightarrow> error + Bounds" where
  "Bounds_new a b =
     (if js_gt a b \<or> \<not> js_is_finite a \<or> \<not> js_is_finite b
         \<or> js_lt a (Num 0) \<or> js_lt b (Num 0)
      then Inl InvalidRange
      else Inr \<lparr>t1 = a, t2 = b\<rparr>)"

text \<open>
  Modelled from the spec: the default \<open>t2=t1\<close> of the same constructor. The
  one-argument form \<open>Bounds(t)\<close> is the point \<open>[t, t]\<close>.
\<close>

definition Bounds_point :: "jsnum \<Rightarrow> error + Bounds" where
  "Bounds_point a = Bounds_new a a"

text \<open>
  Modelled from the spec: \<open>new Interval(bounds, data)\<close> is missing. It creates a new
  object, distinct from every earlier one, holding the bounds and the payload.
\<close>

definition Interval_new :: "Bounds \<Rightarrow> VData \<Rightarrow> heap \<Rightarrow> ref \<times> heap" where
  "Interval_new b d h =
     (fresh h, h\<lparr>objs := (objs h)(fresh h := \<lparr>bounds = b, data = d\<rparr>), fresh := Suc (fresh h)\<rparr>)"

text \<open>
  Modelled from the spec: the point-containment predicate of section 4.1 is missing.
  Closed-interval semantics: for a point query \<open>q = [p, p]\<close> it reads
  \<open>t1 <= p <= t2\<close>.
\<close>

definition Bounds_time_overlaps :: "Bounds \<Rightarrow> Bounds \<Rightarrow> bool" where
  "Bounds_time_overlaps b q = (js_le (t1 b) (t2 q) \<and> js_le (t1 q) (t2 b))"

text \<open>
  Modelled from the spec: \<open>IntervalSet.add\<close> is missing. It inserts preserving the
  sort order by \<open>t1\<close>, ties broken by insertion order (the new interval goes behind the
  members that start at the same time); it never fails and permits duplicates.
\<close>

fun IntervalSet_add :: "store \<Rightarrow> ref \<Rightarrow> IntervalSet \<Rightarrow> IntervalSet" where
  "IntervalSet_add s r [] = [r]"
| "IntervalSet_add s r (x # xs) =
     (if js_lt (t1 (bounds (s r))) (t1 (bounds (s x)))
      then r # x # xs
      else x # IntervalSet_add s r xs)"

text \<open>
  Modelled from the spec: \<open>IntervalSet.remove\<close> is missing. It removes the first
  element matching by identity and is a no-op if there is none.
\<close>

fun IntervalSet_remove :: "ref \<Rightarrow> IntervalSet \<Rightarrow> IntervalSet" where
  "IntervalSet_remove r [] = []"
| "IntervalSet_remove r (x # xs) = (if x = r then xs else x # IntervalSet_remove r xs)"

text \<open>Modelled from the spec: \<open>IntervalSet.length\<close> is missing; the count of members.\<close>

definition IntervalSet_length :: "IntervalSet \<Rightarrow> nat" where
  "IntervalSet_length S = length S"

text \<open>
  Modelled from the spec: \<open>IntervalSet.to_list\<close> is missing. It produces the members
  in sort order, as a snapshot.
\<close>

definition IntervalSet_to_list :: "IntervalSet \<Rightarrow> ref list" where
  "IntervalSet_to_list S = S"

text \<open>
  Modelled from the spec: \<open>IntervalSet.arbitrary_interval\<close> is missing. It returns
  the first member in sort order, or nothing (\<open>null\<close>) if the set is empty.
\<close>

definition arbitrary_interval :: "IntervalSet \<Rightarrow> ref option" where
  "arbitrary_interval S = (case S of [] \<Rightarrow> None | r # _ \<Rightarrow> Some r)"

text \<open>
  Modelled from the spec: \<open>IntervalSet.time_overlaps\<close> is missing. It returns a new
  set containing every member that satisfies the point-containment predicate against the
  query bounds.
\<close>

definition time_overlaps :: "store \<Rightarrow> IntervalSet \<Rightarrow> Bounds \<Rightarrow> IntervalSet" where
  "time_overlaps s S q = filter (\<lambda>r. Bounds_time_overlaps (bounds (s r)) q) S"

text \<open>
  Modelled from the spec: \<open>IntervalSet.union\<close> is missing. It merges two sorted sets
  into one sorted set holding all members of both, without de-duplication, by a merge of
  the two sequences.
\<close>

fun IntervalSet_union :: "store \<Rightarrow> IntervalSet \<Rightarrow> IntervalSet \<Rightarrow> IntervalSet" where
  "IntervalSet_union s [] B = B"
| "IntervalSet_union s A [] = A"
| "IntervalSet_union s (a # A) (b # B) =
     (if js_lt (t1 (bounds (s b))) (t1 (bounds (s a)))
      then b # IntervalSet_union s (a # A) B
      else a # IntervalSet_union s A (b # B))"

text \<open>
  The decoder of the wire format of section 6 is missing as well. An interval is
  \<open>{"bounds": {"t1": .., "t2": ..}, "data": ..}\<close>, an interval set an array of
  intervals.
\<close>

text \<open>
  Modelled from the spec: reading a required field of a JSON object is missing; the
  field may be absent.
\<close>

definition json_field :: "string \<Rightarrow> json \<Rightarrow> json option" where
  "json_field k j = (case j of JObj kvs \<Rightarrow> map_of kvs k | _ \<Rightarrow> None)"

text \<open>
  Modelled from the spec: the decoder of \<open>{"t1": .., "t2": ..}\<close> is missing. A missing
  field is a \<open>DecodeError\<close>; the bounds are built by the constructor of \<open>Bounds\<close>,
  so a bad range fails with \<open>InvalidRange\<close>, as the example of section 8 says.
\<close>

definition Bounds_from_json :: "json \<Rightarrow> error + Bounds" where
  "Bounds_from_json j =
     (case json_field ''t1'' j of
        Some (JNum a) \<Rightarrow>
          (case json_field ''t2'' j of
             Some (JNum b) \<Rightarrow> Bounds_new (Num a) (Num b)
           | _ \<Rightarrow> Inl DecodeError)
      | _ \<Rightarrow> Inl DecodeError)"

text \<open>
  Modelled from the spec: the decoder of one interval is missing. It reads the bounds,
  then the payload, with the payload decoder that the caller passes.
\<close>

definition Interval_from_json :: "json \<Rightarrow> (json \<Rightarrow> error + VData) \<Rightarrow> error + Interval" where
  "Interval_from_json j payload_decoder =
     (case json_field ''bounds'' j of
        None \<Rightarrow> Inl DecodeError
      | Some jb \<Rightarrow>
          (case Bounds_from_json jb of
             Inl e \<Rightarrow> Inl e
           | Inr b \<Rightarrow>
               (case json_field ''data'' j of
                  None \<Rightarrow> Inl DecodeError
                | Some jd \<Rightarrow>
                    (case payload_decoder jd of
                       Inl e \<Rightarrow> Inl e
                     | Inr d \<Rightarrow> Inr \<lparr>bounds = b, data = d\<rparr>))))"

text \<open>
  Modelled from the spec: the all-or-nothing decoding of the intervals of a set is
  missing. The first interval that fails to decode fails the whole set.
\<close>

fun decode_all :: "(json \<Rightarrow> error + 'a) \<Rightarrow> json list \<Rightarrow> error + 'a list" where
  "decode_all f [] = Inr []"
| "decode_all f (j # js) =
     (case f j of
        Inl e \<Rightarrow> Inl e
      | Inr v \<Rightarrow> (case decode_all f js of Inl e \<Rightarrow> Inl e | Inr vs \<Rightarrow> Inr (v # vs)))"

text \<open>
  Modelled from the spec: the construction of the decoded set is missing. Each decoded
  interval becomes a new object and is added to the set.
\<close>

definition add_decoded :: "Interval \<Rightarrow> IntervalSet \<times> heap \<Rightarrow> IntervalSet \<times> heap" where
  "add_decoded iv Sh =
     (let (r, h') = Interval_new (bounds iv) (data iv) (snd Sh)
      in (IntervalSet_add (objs h') r (fst Sh), h'))"

text \<open>
  Modelled from the spec: \<open>IntervalSet.from_json(raw, payload_decoder)\<close> is missing.
  Every interval is decoded before the first object is created, so a failure never
  leaves a partly populated set.
\<close>

definition IntervalSet_from_json ::
  "json \<Rightarrow> (json \<Rightarrow> error + VData) \<Rightarrow> heap \<Rightarrow> error + (IntervalSet \<times> heap)" where
  "IntervalSet_from_json raw payload_decoder h =
     (case raw of
        JArr items \<Rightarrow>
          (case decode_all (\<lambda>j. Interval_from_json j payload_decoder) items of
             Inl e \<Rightarrow> Inl e
           | Inr ivs \<Rightarrow> Inr (fold add_decoded ivs ([], h)))
      | _ \<Rightarrow> Inl DecodeError)"

text \<open>
  Modelled from the spec: the invariant of an interval set, section 3: the sequence is
  sorted ascending by \<open>t1\<close>.
\<close>

definition sorted_by_t1 :: "store \<Rightarrow> IntervalSet \<Rightarrow> bool" where
  "sorted_by_t1 s S = sorted_wrt (\<lambda>a b. js_le (t1 (bounds (s a))) (t1 (bounds (s b)))) S"

text \<open>
  Sequences of the two mutations of a set; \<open>run_ops\<close> lists the set after each
  operation of the sequence.
\<close>

datatype IntervalSet_op = Add ref | Remove ref

fun op_ref :: "IntervalSet_op \<Rightarrow> ref" where
  "op_ref (Add r) = r"
| "op_ref (Remove r) = r"

fun apply_op :: "store \<Rightarrow> IntervalSet_op \<Rightarrow> IntervalSet \<Rightarrow> IntervalSet" where
  "apply_op s (Add r) S = IntervalSet_add s r S"
| "apply_op s (Remove r) S = IntervalSet_remove r S"

fun run_ops :: "store \<Rightarrow> IntervalSet_op list \<Rightarrow> IntervalSet \<Rightarrow> IntervalSet list" where
  "run_ops s [] S = []"
| "run_ops s (x # xs) S = apply_op s x S # run_ops s xs (apply_op s x S)"

section \<open>The block component\<close>

record NamedIntervalSet =
  name :: string
  interval_set :: IntervalSet

record IntervalBlock =
  interval_sets :: "NamedIntervalSet list"
  video_id :: int

text \<open>
  \<open>interval_blocks_from_json\<close> takes a value of type \<open>any\<close> and destructures it as
  the wire format lays it out: an array of \<open>{video_id, interval_sets}\<close>, each interval
  set a \<open>{interval_set, name}\<close>. The model reads its argument at that shape; the
  interval set itself stays raw JSON, handed to \<open>IntervalSet.from_json\<close>.
\<close>

record raw_named_set =
  raw_interval_set :: json
  raw_name :: string

record raw_block =
  raw_video_id :: int
  raw_interval_sets :: "raw_named_set list"

text \<open>
  \<open>Array.prototype.map\<close> with a callback that can throw and can create objects: the
  elements are visited in order, the first exception ends the whole call.
\<close>

fun js_map :: "('a \<Rightarrow> 'h \<Rightarrow> error + ('b \<times> 'h)) \<Rightarrow> 'a list \<Rightarrow> 'h \<Rightarrow> error + ('b list \<times> 'h)" where
  "js_map f [] h = Inr ([], h)"
| "js_map f (x # xs) h =
     (case f x h of
        Inl e \<Rightarrow> Inl e
      | Inr (y, h') \<Rightarrow>
          (case js_map f xs h' of
             Inl e \<Rightarrow> Inl e
           | Inr (ys, h'') \<Rightarrow> Inr (y # ys, h'')))"

text \<open>
  The decoder of one interval set (\<open>IntervalSet.from_json\<close>) and the payload decoder
  (\<open>vdata_from_json\<close>) come from the interval module; they are parameters here. The two
  arrow functions of the source are named: \<open>named_interval_set_from_json\<close> is the
  callback of the inner \<open>map\<close>, \<open>interval_block_from_json\<close> that of the outer one.
\<close>

definition named_interval_set_from_json ::
  "(json \<Rightarrow> 'd \<Rightarrow> 'h \<Rightarrow> error + (IntervalSet \<times> 'h)) \<Rightarrow> 'd \<Rightarrow> raw_named_set \<Rightarrow> 'h
     \<Rightarrow> error + (NamedIntervalSet \<times> 'h)" where
  "named_interval_set_from_json from_json vdata_from_json rs h =
     (case from_json (raw_interval_set rs) vdata_from_json h of
        Inl e \<Rightarrow> Inl e
      | Inr (S, h') \<Rightarrow> Inr (\<lparr>name = raw_name rs, interval_set = S\<rparr>, h'))"

definition interval_block_from_json ::
  "(json \<Rightarrow> 'd \<Rightarrow> 'h \<Rightarrow> error + (IntervalSet \<times> 'h)) \<Rightarrow> 'd \<Rightarrow> raw_block \<Rightarrow> 'h
     \<Rightarrow> error + (IntervalBlock \<times> 'h)" where
  "interval_block_from_json from_json vdata_from_json rb h =
     (case js_map (named_interval_set_from_json from_json vdata_from_json)
             (raw_interval_sets rb) h of
        Inl e \<Rightarrow> Inl e
      | Inr (sets, h') \<Rightarrow> Inr (\<lparr>interval_sets = sets, video_id = raw_video_id rb\<rparr>, h'))"

definition interval_blocks_from_json ::
  "(json \<Rightarrow> 'd \<Rightarrow> 'h \<Rightarrow> error + (IntervalSet \<times> 'h)) \<Rightarrow> 'd \<Rightarrow> raw_block list \<Rightarrow> 'h
     \<Rightarrow> error + (IntervalBlock list \<times> 'h)" where
  "interval_blocks_from_json from_json vdata_from_json obj =
     js_map (interval_block_from_json from_json vdata_from_json) obj"

text \<open>Hide interval sets with keys beginning with \<open>_\<close> from the timeline: \<open>k[0] != '_'\<close>.\<close>

definition show_in_timeline :: "string \<Rightarrow> bool" where
  "show_in_timeline k = (case k of [] \<Rightarrow> True | c # _ \<Rightarrow> c \<noteq> CHR ''_'')"

text \<open>
  The fields the constructor of \<open>VBlock\<close> sets. \<open>time_state\<close> is the time of the
  \<open>TimeState\<close> object; \<open>captions\<close> denotes the interval set of the block it was taken
  from (the block's sets are not mutated by the components modelled here).
\<close>

record VBlock =
  time_state :: jsnum
  captions :: "IntervalSet option"
  show_timeline :: bool
  expand :: bool

text \<open>
  The reduction that computes the earliest time. The non-null assertion
  \<open>arbitrary_interval()!\<close> is erased at run time: reading \<open>.bounds\<close> of \<open>null\<close>
  throws a \<open>TypeError\<close>.
\<close>

fun first_time_reduce :: "store \<Rightarrow> NamedIntervalSet list \<Rightarrow> jsnum \<Rightarrow> error + jsnum" where
  "first_time_reduce s [] n = Inr n"
| "first_time_reduce s (ns # rest) n =
     (if IntervalSet_length (interval_set ns) > 0
      then (case arbitrary_interval (interval_set ns) of
              None \<Rightarrow> Inl TypeError
            | Some r \<Rightarrow> first_time_reduce s rest (js_min n (t1 (bounds (s r)))))
      else first_time_reduce s rest n)"

text \<open>The \<open>forEach\<close> that finds the captions: the last set whose first interval is a caption.\<close>

fun find_captions ::
  "store \<Rightarrow> NamedIntervalSet list \<Rightarrow> IntervalSet option \<Rightarrow> error + IntervalSet option" where
  "find_captions s [] c = Inr c"
| "find_captions s (ns # rest) c =
     (if IntervalSet_length (interval_set ns) > 0
      then (case arbitrary_interval (interval_set ns) of
              None \<Rightarrow> Inl TypeError
            | Some r \<Rightarrow>
                if spatial_type (data (s r)) = SpatialType_Caption
                then find_captions s rest (Some (interval_set ns))
                else find_captions s rest c)
      else find_captions s rest c)"

text \<open>
  The filter of the last statement: the callback reads \<open>example_interval.bounds\<close>, once
  for every interval it is called on, and throws if the example is \<open>null\<close>.
\<close>

fun filter_differs :: "store \<Rightarrow> ref option \<Rightarrow> ref list \<Rightarrow> error + ref list" where
  "filter_differs s example_interval [] = Inr []"
| "filter_differs s example_interval (intvl # rest) =
     (case example_interval of
        None \<Rightarrow> Inl TypeError
      | Some ex \<Rightarrow>
          (case filter_differs s example_interval rest of
             Inl e \<Rightarrow> Inl e
           | Inr ys \<Rightarrow>
               Inr (if js_ne (t1 (bounds (s intvl))) (t1 (bounds (s ex)))
                       \<and> js_ne (t2 (bounds (s intvl))) (t2 (bounds (s ex)))
                    then intvl # ys else ys)))"

definition VBlock_constructor :: "store \<Rightarrow> IntervalBlock \<Rightarrow> error + VBlock" where
  "VBlock_constructor s block =
     (case first_time_reduce s
             (filter (\<lambda>ns. show_in_timeline (name ns)) (interval_sets block)) PosInf of
        Inl e \<Rightarrow> Inl e
      | Inr first_time \<Rightarrow>
          (case find_captions s (interval_sets block) None of
             Inl e \<Rightarrow> Inl e
           | Inr caps \<Rightarrow>
               (case interval_sets block of
                  [] \<Rightarrow> Inl TypeError
                | ns0 # _ \<Rightarrow>
                    (let example_interval = arbitrary_interval (interval_set ns0) in
                     if length (interval_sets block) = 1
                     then (case filter_differs s example_interval
                                  (IntervalSet_to_list (interval_set ns0)) of
                             Inl e \<Rightarrow> Inl e
                           | Inr ys \<Rightarrow>
                               Inr \<lparr>time_state = first_time, captions = caps,
                                    show_timeline = \<not> (length ys = 0), expand = False\<rparr>)
                     else Inr \<lparr>time_state = first_time, captions = caps,
                               show_timeline = True, expand = False\<rparr>))))"

text \<open>
  Get the intervals from all sets that overlap with the current time. The second set is
  \<open>label_state.new_intervals\<close>.
\<close>

definition current_intervals ::
  "store \<Rightarrow> IntervalBlock \<Rightarrow> IntervalSet \<Rightarrow> VBlock \<Rightarrow> error + NamedIntervalSet list" where
  "current_intervals s block new_intervals vb =
     (case Bounds_point (time_state vb) of
        Inl e \<Rightarrow> Inl e
      | Inr q \<Rightarrow>
          (let cur = map (\<lambda>ns. \<lparr>name = name ns,
                                  interval_set = time_overlaps s (interval_set ns) q\<rparr>)
                         (interval_sets block);
               new = time_overlaps s new_intervals q
           in Inr (if IntervalSet_length new > 0
                   then cur @ [\<lparr>name = ''__new_intervals'', interval_set = new\<rparr>]
                   else cur)))"

text \<open>
  What \<open>render\<close> hands to each track (the geometry of the block, read from the video's
  metadata, is left out). The settings are the three display switches.
\<close>

record Settings =
  settings_show_timeline :: bool
  settings_show_captions :: bool
  settings_show_metadata :: bool

record VBlock_tracks =
  video_track :: "NamedIntervalSet list"
  metadata_track :: "NamedIntervalSet list option"
  timeline_track :: "NamedIntervalSet list option"
  caption_track :: "IntervalSet option"

definition VBlock_render ::
  "store \<Rightarrow> Settings \<Rightarrow> IntervalBlock \<Rightarrow> IntervalSet \<Rightarrow> VBlock \<Rightarrow> error + VBlock_tracks" where
  "VBlock_render s settings block new_intervals vb =
     (case current_intervals s block new_intervals vb of
        Inl e \<Rightarrow> Inl e
      | Inr cur \<Rightarrow>
          Inr \<lparr>video_track = cur,
               metadata_track =
                 (if settings_show_metadata settings \<or> expand vb then Some cur else None),
               timeline_track =
                 (if settings_show_timeline settings \<and> (show_timeline vb \<or> expand vb)
                  then Some (filter (\<lambda>ns. show_in_timeline (name ns)) (interval_sets block))
                  else None),
               caption_track =
                 (case captions vb of
                    None \<Rightarrow> None
                  | Some c \<Rightarrow>
                      if settings_show_captions settings \<or> expand vb then Some c else None)\<rparr>)"

section \<open>The timeline component\<close>

text \<open>The visible window of the timeline (\<open>TimelineBounds\<close>, fields \<open>start\<close> and \<open>end\<close>).\<close>

record TimelineBounds =
  start :: jsnum
  end' :: jsnum

text \<open>
  \<open>TimelineRow.render_canvas\<close> walks the intervals of its set and fills one rectangle for
  each interval that passes the test on the window. A call of \<open>fillRect\<close> is recorded
  with the fill style in force and the interval it draws; the pixel arithmetic of the
  rectangle is left out.
\<close>

record fillRect =
  fillStyle :: string
  drawn :: ref

text \<open>The fill style: the row's colour, unless the interval is a box with a colour of its own.\<close>

definition fill_style_of :: "string \<Rightarrow> Interval \<Rightarrow> string" where
  "fill_style_of color intvl =
     (case spatial_type (data intvl) of
        SpatialType_Bbox (Some c) \<Rightarrow> (if c \<noteq> [] then c else color)
      | _ \<Rightarrow> color)"

definition render_canvas ::
  "store \<Rightarrow> IntervalSet option \<Rightarrow> TimelineBounds \<Rightarrow> string \<Rightarrow> fillRect list" where
  "render_canvas s intervals window color =
     (case intervals of
        None \<Rightarrow> []
      | Some S \<Rightarrow>
          concat (map (\<lambda>intvl.
                    if js_gt (t2 (bounds (s intvl))) (start window)
                       \<and> js_lt (t1 (bounds (s intvl))) (end' window)
                    then [\<lparr>fillStyle = fill_style_of color (s intvl), drawn = intvl\<rparr>]
                    else [])
                  (IntervalSet_to_list S)))"

text \<open>
  \<open>Timeline.componentDidUpdate\<close>, the part that follows the playhead with the interval
  being drawn. (The statements before it pan the visible window after the playhead, by
  floating-point arithmetic on the window; they touch neither an interval nor a set and
  are left out.) The component's state holds the interval in progress (or \<open>null\<close>) for the
  positive and for the negative labels; the label state holds the two sets. The source
  repeats one block for each of the two; \<open>advance_new_interval\<close> is that block: the end
  of the interval is overwritten in place, then the interval is cycled out of and into
  its set.
\<close>

record BlockLabelState =
  new_positive_intervals :: IntervalSet
  new_negative_intervals :: IntervalSet

record TimelineState =
  shift_held :: bool
  new_positive_interval :: "ref option"
  new_negative_interval :: "ref option"

definition set_t2 :: "store \<Rightarrow> ref \<Rightarrow> jsnum \<Rightarrow> store" where
  "set_t2 s r time = s(r := (s r)\<lparr>bounds := (bounds (s r))\<lparr>t2 := time\<rparr>\<rparr>)"

definition advance_new_interval ::
  "jsnum \<Rightarrow> ref \<Rightarrow> store \<times> IntervalSet \<Rightarrow> store \<times> IntervalSet" where
  "advance_new_interval time r w =
     (if js_gt time (t1 (bounds (fst w r))) \<and> js_ne time (t2 (bounds (fst w r)))
      then (let s' = set_t2 (fst w) r time
            in (s', IntervalSet_add s' r (IntervalSet_remove r (snd w))))
      else w)"

definition componentDidUpdate ::
  "jsnum \<Rightarrow> TimelineState \<Rightarrow> store \<times> BlockLabelState \<Rightarrow> store \<times> BlockLabelState" where
  "componentDidUpdate time st w =
     (let w1 = (case new_positive_interval st of
                  None \<Rightarrow> (fst w, new_positive_intervals (snd w))
                | Some r \<Rightarrow> advance_new_interval time r (fst w, new_positive_intervals (snd w)));
          w2 = (case new_negative_interval st of
                  None \<Rightarrow> (fst w1, new_negative_intervals (snd w))
                | Some r \<Rightarrow> advance_new_interval time r (fst w1, new_negative_intervals (snd w)))
      in (fst w2, \<lparr>new_positive_intervals = snd w1, new_negative_intervals = snd w2\<rparr>))"

text \<open>
  \<open>Timeline.render\<close>, the part that decides which interval set each row of the timeline
  draws. The keys are the names of the interval sets, followed by \<open>__new_intervals\<close> if
  there is a new interval; \<open>keys_to_intervals\<close> is the loop that fills the object of that
  name, key by key (a later key overwrites an equal earlier one); each row then looks its
  key up. Reading \<open>.interval_set\<close> of a missing element of \<open>this.props.intervals\<close>
  throws.
\<close>

definition Timeline_keys :: "NamedIntervalSet list \<Rightarrow> BlockLabelState \<Rightarrow> string list" where
  "Timeline_keys intervals ls =
     map name intervals
     @ (if IntervalSet_length (new_positive_intervals ls) > 0
           \<or> IntervalSet_length (new_negative_intervals ls) > 0
        then [''__new_intervals''] else [])"

fun keys_to_intervals ::
  "store \<Rightarrow> NamedIntervalSet list \<Rightarrow> BlockLabelState \<Rightarrow> (nat \<times> string) list
     \<Rightarrow> (string \<rightharpoonup> IntervalSet) \<Rightarrow> error + (string \<rightharpoonup> IntervalSet)" where
  "keys_to_intervals s intervals ls [] m = Inr m"
| "keys_to_intervals s intervals ls ((key_idx, key) # rest) m =
     (if key = ''__new_intervals''
      then keys_to_intervals s intervals ls rest
             (m(key \<mapsto> IntervalSet_union s (new_positive_intervals ls)
                                           (new_negative_intervals ls)))
      else if key_idx < length intervals
      then keys_to_intervals s intervals ls rest
             (m(key \<mapsto> interval_set (intervals ! key_idx)))
      else Inl TypeError)"

definition Timeline_rows ::
  "store \<Rightarrow> NamedIntervalSet list \<Rightarrow> BlockLabelState
     \<Rightarrow> error + (string \<times> IntervalSet option) list" where
  "Timeline_rows s intervals ls =
     (let keys = Timeline_keys intervals ls
      in case keys_to_intervals s intervals ls (enumerate 0 keys) Map.empty of
           Inl e \<Rightarrow> Inl e
         | Inr m \<Rightarrow> Inr (map (\<lambda>k. (k, m k)) keys))"

section \<open>The groups view\<close>

text \<open>
  The state of \<open>Groups\<close>. Group indices are whole numbers; the four sets are JavaScript
  \<open>Set\<close>s of indices, mutated in place by the handlers.
\<close>

record Groups_state =
  page :: int
  selected_start :: int
  selected_end :: int
  selected :: "int set"
  ignored :: "int set"
  positive_ex :: "int set"
  negative_ex :: "int set"

definition Groups_initial :: Groups_state where
  "Groups_initial =
     \<lparr>page = 0, selected_start = -1, selected_end = -1, selected = {}, ignored = {},
      positive_ex = {}, negative_ex = {}\<rparr>"

text \<open>\<open>SELECT_MODES\<close>: the setting \<open>select_mode\<close> is compared with these two numbers.\<close>

definition RANGE :: int where
  "RANGE = 0"

definition INDIVIDUAL :: int where
  "INDIVIDUAL = 1"

definition onSelect :: "int \<Rightarrow> int \<Rightarrow> Groups_state \<Rightarrow> Groups_state" where
  "onSelect select_mode e st =
     (if select_mode = RANGE then
        (if selected_start st = -1 then st\<lparr>selected_start := e\<rparr>
         else if e = selected_start st then st\<lparr>selected_start := -1, selected_end := -1\<rparr>
         else if e < selected_start st then
           (if selected_end st = -1
            then st\<lparr>selected_end := selected_start st, selected_start := e\<rparr>
            else st\<lparr>selected_start := e\<rparr>)
         else st\<lparr>selected_end := e\<rparr>)
      else if select_mode = INDIVIDUAL then
        (if e \<in> selected st then st\<lparr>selected := selected st - {e}\<rparr>
         else st\<lparr>selected := insert e (selected st), ignored := ignored st - {e}\<rparr>)
      else st)"

definition onIgnore :: "int \<Rightarrow> Groups_state \<Rightarrow> Groups_state" where
  "onIgnore e st =
     (if e \<in> ignored st then st\<lparr>ignored := ignored st - {e}\<rparr>
      else st\<lparr>ignored := insert e (ignored st), selected := selected st - {e}\<rparr>)"

text \<open>
  The page handlers loop twice over the groups of the current page, from \<open>minGroup\<close> to
  \<open>maxGroup\<close>: once to see whether all of them are in the set, once to update both sets.
\<close>

definition minGroup :: "int \<Rightarrow> Groups_state \<Rightarrow> int" where
  "minGroup resultsPerPage st = page st * resultsPerPage"

definition maxGroup :: "int \<Rightarrow> int \<Rightarrow> Groups_state \<Rightarrow> int" where
  "maxGroup resultsPerPage n_groups st =
     min (minGroup resultsPerPage st + resultsPerPage) n_groups - 1"

definition select_page_step :: "bool \<Rightarrow> int \<Rightarrow> Groups_state \<Rightarrow> Groups_state" where
  "select_page_step allSelected i st =
     (if allSelected
      then st\<lparr>selected := selected st - {i}, ignored := ignored st - {i}\<rparr>
      else st\<lparr>selected := insert i (selected st), ignored := ignored st - {i}\<rparr>)"

definition onSelectPage :: "int \<Rightarrow> int \<Rightarrow> Groups_state \<Rightarrow> Groups_state" where
  "onSelectPage resultsPerPage n_groups st =
     (let lo = minGroup resultsPerPage st;
          hi = maxGroup resultsPerPage n_groups st;
          allSelected = list_all (\<lambda>i. i \<in> selected st) [lo..hi]
      in fold (select_page_step allSelected) [lo..hi] st)"

definition ignore_page_step :: "bool \<Rightarrow> int \<Rightarrow> Groups_state \<Rightarrow> Groups_state" where
  "ignore_page_step allIgnored i st =
     (if allIgnored
      then st\<lparr>ignored := ignored st - {i}, selected := selected st - {i}\<rparr>
      else st\<lparr>ignored := insert i (ignored st), selected := selected st - {i}\<rparr>)"

definition onIgnorePage :: "int \<Rightarrow> int \<Rightarrow> Groups_state \<Rightarrow> Groups_state" where
  "onIgnorePage resultsPerPage n_groups st =
     (let lo = minGroup resultsPerPage st;
          hi = maxGroup resultsPerPage n_groups st;
          allIgnored = list_all (\<lambda>i. i \<in> ignored st) [lo..hi]
      in fold (ignore_page_step allIgnored) [lo..hi] st)"

text \<open>
  An event of the view: the handler called, with the settings and the number of groups
  it reads at that moment.
\<close>

datatype Groups_event =
    Select int int
  | Ignore int
  | SelectPage int int
  | IgnorePage int int

fun Groups_handle :: "Groups_event \<Rightarrow> Groups_state \<Rightarrow> Groups_state" where
  "Groups_handle (Select select_mode e) st = onSelect select_mode e st"
| "Groups_handle (Ignore e) st = onIgnore e st"
| "Groups_handle (SelectPage resultsPerPage n_groups) st = onSelectPage resultsPerPage n_groups st"
| "Groups_handle (IgnorePage resultsPerPage n_groups) st = onIgnorePage resultsPerPage n_groups st"

section \<open>Example data\<close>

text \<open>
  A store for the examples: object 0 is the caption \<open>[2, 5]\<close>, objects 1 and 2 are two
  distinct intervals with the identical bounds \<open>[0, 1]\<close>, object 3 is a coloured box
  \<open>[1, 5]\<close> (an interval being drawn); every other object is the point \<open>[0, 0]\<close>.
\<close>

definition mk_interval :: "real \<Rightarrow> real \<Rightarrow> SpatialType \<Rightarrow> Interval" where
  "mk_interval a b ty =
     \<lparr>bounds = \<lparr>t1 = Num a, t2 = Num b\<rparr>, data = \<lparr>spatial_type = ty, metadata = []\<rparr>\<rparr>"

definition example_store :: store where
  "example_store =
     (\<lambda>r. mk_interval 0 0 SpatialType_Other)
       (0 := mk_interval 2 5 SpatialType_Caption,
        1 := mk_interval 0 1 SpatialType_Other,
        2 := mk_interval 0 1 SpatialType_Other,
        3 := mk_interval 1 5 (SpatialType_Bbox (Some ''red'')))"

text \<open>
  Wire data for the examples, with a payload decoder that accepts everything: one block
  with a hidden channel and a visible one, and one block whose only interval has the
  bounds \<open>{"t1": 3, "t2": 1}\<close>.
\<close>

definition no_payload :: "json \<Rightarrow> error + VData" where
  "no_payload j = Inr \<lparr>spatial_type = SpatialType_Other, metadata = []\<rparr>"

definition raw_interval :: "real \<Rightarrow> real \<Rightarrow> json" where
  "raw_interval a b =
     JObj [(''bounds'', JObj [(''t1'', JNum a), (''t2'', JNum b)]), (''data'', JNull)]"

definition empty_heap :: heap where
  "empty_heap = \<lparr>objs = (\<lambda>r. mk_interval 0 0 SpatialType_Other), fresh = 0\<rparr>"

definition example_obj :: "raw_block list" where
  "example_obj =
     [\<lparr>raw_video_id = 7,
       raw_interval_sets =
         [\<lparr>raw_interval_set = JArr [raw_interval 2 5], raw_name = ''_hidden''\<rparr>,
          \<lparr>raw_interval_set = JArr [raw_interval 4 6, raw_interval 0 1],
           raw_name = ''faces''\<rparr>]\<rparr>]"

definition bad_obj :: "raw_block list" where
  "bad_obj =
     [\<lparr>raw_video_id = 7,
       raw_interval_sets =
         [\<lparr>raw_interval_set = JArr [raw_interval 3 1], raw_name = ''faces''\<rparr>]\<rparr>]"

definition example_block :: IntervalBlock where
  "example_block =
     \<lparr>interval_sets = [\<lparr>name = ''_hidden'', interval_set = [0]\<rparr>,
                       \<lparr>name = ''faces'', interval_set = [1, 2]\<rparr>],
      video_id = 7\<rparr>"

definition example_vblock :: VBlock where
  "example_vblock =
     \<lparr>time_state = Num 0, captions = Some [0], show_timeline = True, expand = False\<rparr>"

definition all_shown :: Settings where
  "all_shown =
     \<lparr>settings_show_timeline = True, settings_show_captions = True,
      settings_show_metadata = True\<rparr>"

section \<open>Properties of the interval set\<close>

lemma mset_IntervalSet_union:
  "mset (IntervalSet_union s A B) = mset A + mset B"
  by (induction s A B rule: IntervalSet_union.induct) simp_all

lemma length_IntervalSet_union:
  "length (IntervalSet_union s A B) = length A + length B"
  by (induction s A B rule: IntervalSet_union.induct) simp_all

lemma mset_IntervalSet_add: "mset (IntervalSet_add s r S) = add_mset r (mset S)"
  by (induction S) simp_all

lemma IntervalSet_remove_remove1: "IntervalSet_remove r S = remove1 r S"
  by (induction S) auto

lemma keys_to_intervals_new:
  assumes "keys_to_intervals s intervals ls ks m = Inr m'"
    and "m ''__new_intervals'' = None \<or> m ''__new_intervals''
           = Some (IntervalSet_union s (new_positive_intervals ls) (new_negative_intervals ls))"
  shows "m' ''__new_intervals'' = None \<or> m' ''__new_intervals''
           = Some (IntervalSet_union s (new_positive_intervals ls) (new_negative_intervals ls))"
  using assms
proof (induction ks arbitrary: m)
  case Nil
  then show ?case by simp
next
  case (Cons ik ks)
  obtain key_idx key where ik: "ik = (key_idx, key)" by (cases ik)
  let ?U = "IntervalSet_union s (new_positive_intervals ls) (new_negative_intervals ls)"
  show ?case
  proof (cases "key = ''__new_intervals''")
    case True
    have "keys_to_intervals s intervals ls ks (m(key \<mapsto> ?U)) = Inr m'"
      using Cons.prems(1) ik True by simp
    moreover have "(m(key \<mapsto> ?U)) ''__new_intervals'' = Some ?U"
      using True by simp
    ultimately show ?thesis
      using Cons.IH [of "m(key \<mapsto> ?U)"] by blast
  next
    case False
    have "keys_to_intervals s intervals ls ks (m(key \<mapsto> interval_set (intervals ! key_idx)))
            = Inr m'"
      using Cons.prems(1) ik False by (simp split: if_splits)
    moreover have "(m(key \<mapsto> interval_set (intervals ! key_idx))) ''__new_intervals''
                     = m ''__new_intervals''"
      using False by simp
    ultimately show ?thesis
      using Cons.IH [of "m(key \<mapsto> interval_set (intervals ! key_idx))"] Cons.prems(2)
      by metis
  qed
qed

lemma keys_to_intervals_total:
  assumes "\<forall>ik \<in> set ks. snd ik = ''__new_intervals'' \<or> fst ik < length intervals"
  shows "\<exists>m'. keys_to_intervals s intervals ls ks m = Inr m'"
  using assms
proof (induction ks arbitrary: m)
  case Nil
  show ?case by simp
next
  case (Cons ik ks)
  obtain key_idx key where ik: "ik = (key_idx, key)" by (cases ik)
  with Cons show ?case by auto
qed

lemma Timeline_keys_indices:
  "\<forall>ik \<in> set (enumerate 0 (Timeline_keys intervals ls)).
     snd ik = ''__new_intervals'' \<or> fst ik < length intervals"
  by (auto simp: Timeline_keys_def in_set_enumerate_eq nth_append)

lemma Timeline_rows_total: "\<exists>rows. Timeline_rows s intervals ls = Inr rows"
proof -
  obtain m where "keys_to_intervals s intervals ls (enumerate 0 (Timeline_keys intervals ls))
                    Map.empty = Inr m"
    using keys_to_intervals_total [OF Timeline_keys_indices] by blast
  then show ?thesis by (simp add: Timeline_rows_def Let_def)
qed

lemma Timeline_rows_new:
  assumes "Timeline_rows s intervals ls = Inr rows"
    and "(''__new_intervals'', Some R) \<in> set rows"
  shows "R = IntervalSet_union s (new_positive_intervals ls) (new_negative_intervals ls)"
proof -
  from assms(1) obtain m where
    m: "keys_to_intervals s intervals ls (enumerate 0 (Timeline_keys intervals ls)) Map.empty
          = Inr m"
    and rows: "rows = map (\<lambda>k. (k, m k)) (Timeline_keys intervals ls)"
    by (auto simp: Timeline_rows_def Let_def split: sum.splits)
  from assms(2) rows have "m ''__new_intervals'' = Some R" by auto
  with keys_to_intervals_new [OF m] show ?thesis by simp
qed

text \<open>
  Claim C4. The union of two interval sets has the same members whichever operand comes
  first (as multisets of objects: the order may differ), and its length is the sum of the
  two lengths: nothing is de-duplicated. Objects 1 and 2 of the example store are
  distinct and have identical bounds, and the union of the two singleton sets has length
  2. In \<open>Timeline.render\<close>, which always returns its rows, the row \<open>__new_intervals\<close>
  draws the union of the new positive and the new negative intervals: all members of
  both, as many as the two sets have together.
\<close>

theorem union_multiset:
  "mset (IntervalSet_union s A B) = mset (IntervalSet_union s B A)
   \<and> IntervalSet_length (IntervalSet_union s A B) = IntervalSet_length A + IntervalSet_length B
   \<and> bounds (example_store 1) = bounds (example_store 2)
   \<and> IntervalSet_length (IntervalSet_union example_store [1] [2]) = 2
   \<and> (\<exists>rows. Timeline_rows s intervals ls = Inr rows)
   \<and> (Timeline_rows s intervals ls = Inr rows \<and> (''__new_intervals'', Some R) \<in> set rows
      \<longrightarrow> mset R = mset (new_positive_intervals ls) + mset (new_negative_intervals ls)
        \<and> IntervalSet_length R
            = IntervalSet_length (new_positive_intervals ls)
              + IntervalSet_length (new_negative_intervals ls))"
proof -
  have a: "mset (IntervalSet_union s A B) = mset (IntervalSet_union s B A)"
    by (simp add: mset_IntervalSet_union)
  have b: "IntervalSet_length (IntervalSet_union s A B)
             = IntervalSet_length A + IntervalSet_length B"
    by (simp add: IntervalSet_length_def length_IntervalSet_union)
  have c: "bounds (example_store 1) = bounds (example_store 2)
           \<and> IntervalSet_length (IntervalSet_union example_store [1] [2]) = 2"
    by (simp add: IntervalSet_length_def example_store_def)
  have d: "mset R = mset (new_positive_intervals ls) + mset (new_negative_intervals ls)
        \<and> IntervalSet_length R
            = IntervalSet_length (new_positive_intervals ls)
              + IntervalSet_length (new_negative_intervals ls)"
    if "Timeline_rows s intervals ls = Inr rows" and "(''__new_intervals'', Some R) \<in> set rows"
    using Timeline_rows_new [OF that]
    by (simp add: mset_IntervalSet_union IntervalSet_length_def length_IntervalSet_union)
  show ?thesis
    using a b c d Timeline_rows_total [of s intervals ls] by blast
qed

theorem union_multiset_witness:
  "Timeline_rows example_store [\<lparr>name = ''faces'', interval_set = [1, 2]\<rparr>]
       \<lparr>new_positive_intervals = [3], new_negative_intervals = [1, 0]\<rparr>
     = Inr [(''faces'', Some [1, 2]), (''__new_intervals'', Some [1, 3, 0])]
   \<and> mset [1, 3, 0] = mset [3] + mset [1, 0 :: nat]
   \<and> IntervalSet_union example_store [1, 0] [3] = [1, 3, 0]
   \<and> IntervalSet_union example_store [1] [2] = [1, 2]
   \<and> IntervalSet_union example_store [2] [1] = [2, 1]"
  using union_multiset [of example_store "[3]" "[1, 0]" "[\<lparr>name = ''faces'', interval_set = [1, 2]\<rparr>]"
          "\<lparr>new_positive_intervals = [3], new_negative_intervals = [1, 0]\<rparr>"
          "[(''faces'', Some [1, 2]), (''__new_intervals'', Some [1, 3, 0])]" "[1, 3, 0]"]
  by (simp add: Timeline_rows_def Timeline_keys_def IntervalSet_length_def Let_def
        example_store_def mk_interval_def enumerate_eq_zip)

text \<open>
  Claim C5. For a member \<open>r\<close> of a set, removing it and adding it again at once gives a
  set with the members and the length it had: no entry is lost and none is duplicated.
  The same holds for the set that \<open>componentDidUpdate\<close> cycles the interval through
  after it has moved the interval's end.
\<close>

theorem remove_then_add_restores:
  "r \<in> set S \<Longrightarrow>
     mset (IntervalSet_add s r (IntervalSet_remove r S)) = mset S
     \<and> IntervalSet_length (IntervalSet_add s r (IntervalSet_remove r S)) = IntervalSet_length S
     \<and> mset (snd (advance_new_interval time r (s, S))) = mset S"
proof -
  assume m: "r \<in> set S"
  have a: "mset (IntervalSet_add s' r (IntervalSet_remove r S)) = mset S" for s'
    using m by (simp add: mset_IntervalSet_add IntervalSet_remove_remove1)
  have b: "length (IntervalSet_add s r (IntervalSet_remove r S)) = length S"
    using a [of s] by (metis size_mset)
  show ?thesis
    using a b by (simp add: IntervalSet_length_def advance_new_interval_def Let_def)
qed

theorem remove_then_add_restores_witness:
  "(3::nat) \<in> set [1, 3, 0]
   \<and> mset (IntervalSet_add example_store 3 (IntervalSet_remove 3 [1, 3, 0])) = mset [1, 3, 0]
   \<and> IntervalSet_length (IntervalSet_add example_store 3 (IntervalSet_remove 3 [1, 3, 0])) = 3
   \<and> IntervalSet_add example_store 3 (IntervalSet_remove 3 [1, 3, 0]) = [1, 3, 0]"
  using remove_then_add_restores [of 3 "[1, 3, 0]" example_store "Num 0"]
  by (simp add: example_store_def mk_interval_def IntervalSet_length_def)

section \<open>Properties of the groups view\<close>

lemma fold_select_page_step:
  "selected (fold (select_page_step b) xs st)
     = (if b then selected st - set xs else selected st \<union> set xs)
   \<and> ignored (fold (select_page_step b) xs st) = ignored st - set xs"
  by (induction xs arbitrary: st) (auto simp: select_page_step_def)

lemma fold_ignore_page_step:
  "ignored (fold (ignore_page_step b) xs st)
     = (if b then ignored st - set xs else ignored st \<union> set xs)
   \<and> selected (fold (ignore_page_step b) xs st) = selected st - set xs"
  by (induction xs arbitrary: st) (auto simp: ignore_page_step_def)

lemma Groups_handle_added:
  "(selected (Groups_handle ev st) - selected st) \<inter> ignored (Groups_handle ev st) = {}
   \<and> (ignored (Groups_handle ev st) - ignored st) \<inter> selected (Groups_handle ev st) = {}"
  by (cases ev)
     (auto simp: onSelect_def onIgnore_def onSelectPage_def onIgnorePage_def Let_def
                 fold_select_page_step fold_ignore_page_step)

lemma Groups_handle_disjoint:
  "selected st \<inter> ignored st = {} \<Longrightarrow>
   selected (Groups_handle ev st) \<inter> ignored (Groups_handle ev st) = {}"
  by (cases ev)
     (auto simp: onSelect_def onIgnore_def onSelectPage_def onIgnorePage_def Let_def
                 fold_select_page_step fold_ignore_page_step)

lemma Groups_run_disjoint:
  "selected st \<inter> ignored st = {} \<Longrightarrow>
   selected (fold Groups_handle evs st) \<inter> ignored (fold Groups_handle evs st) = {}"
  by (induction evs arbitrary: st) (simp_all add: Groups_handle_disjoint)

text \<open>
  Claim C10. After any sequence of the four handlers, run from the initial state of the
  component, no index is both selected and ignored. Moreover each single handler, in any
  state, leaves every index it has added to one of the two sets outside the other.
\<close>

theorem selected_ignored_disjoint:
  "selected (fold Groups_handle evs Groups_initial)
     \<inter> ignored (fold Groups_handle evs Groups_initial) = {}
   \<and> (selected (Groups_handle ev st) - selected st) \<inter> ignored (Groups_handle ev st) = {}
   \<and> (ignored (Groups_handle ev st) - ignored st) \<inter> selected (Groups_handle ev st) = {}"
  using Groups_run_disjoint [of Groups_initial evs] Groups_handle_added [of ev st]
  by (simp add: Groups_initial_def)

section \<open>Properties of the comparisons\<close>

lemma js_lt_imp_le: "js_lt a b \<Longrightarrow> js_le a b"
  by (simp add: js_le_def)

lemma js_le_trans: "js_le a b \<Longrightarrow> js_le b c \<Longrightarrow> js_le a c"
  by (cases a; cases b; cases c) (auto simp: js_le_def js_eq_def)

lemma js_not_lt_le: "a \<noteq> NaN \<Longrightarrow> b \<noteq> NaN \<Longrightarrow> \<not> js_lt a b \<Longrightarrow> js_le b a"
  by (cases a; cases b) (auto simp: js_le_def js_eq_def)

lemma js_le_not_gt: "js_le a b \<Longrightarrow> \<not> js_gt a b"
  by (cases a; cases b) (auto simp: js_le_def js_gt_def js_eq_def)

lemma js_gt_not_NaN: "js_gt a b \<Longrightarrow> a \<noteq> NaN"
  by (cases a; cases b) (auto simp: js_gt_def)

section \<open>The sort invariant\<close>

lemma set_IntervalSet_add: "set (IntervalSet_add s r S) = insert r (set S)"
  by (induction S) auto

lemma set_IntervalSet_remove: "set (IntervalSet_remove r S) \<subseteq> set S"
  by (induction S) auto

lemma sorted_IntervalSet_add:
  assumes "t1 (bounds (s r)) \<noteq> NaN" and "\<forall>x \<in> set S. t1 (bounds (s x)) \<noteq> NaN"
    and "sorted_by_t1 s S"
  shows "sorted_by_t1 s (IntervalSet_add s r S)"
  using assms(2,3)
proof (induction S)
  case Nil
  show ?case by (simp add: sorted_by_t1_def)
next
  case (Cons x xs)
  have tail: "sorted_by_t1 s xs" and head: "\<forall>y \<in> set xs. js_le (t1 (bounds (s x))) (t1 (bounds (s y)))"
    using Cons.prems(2) by (simp_all add: sorted_by_t1_def)
  show ?case
  proof (cases "js_lt (t1 (bounds (s r))) (t1 (bounds (s x)))")
    case True
    then have rx: "js_le (t1 (bounds (s r))) (t1 (bounds (s x)))"
      by (rule js_lt_imp_le)
    have "\<forall>y \<in> set xs. js_le (t1 (bounds (s r))) (t1 (bounds (s y)))"
      using head rx js_le_trans by blast
    with True rx Cons.prems(2) show ?thesis
      by (simp add: sorted_by_t1_def)
  next
    case False
    have xr: "js_le (t1 (bounds (s x))) (t1 (bounds (s r)))"
      using js_not_lt_le [OF assms(1) _ False] Cons.prems(1) by simp
    have "sorted_by_t1 s (IntervalSet_add s r xs)"
      using Cons.IH tail Cons.prems(1) by simp
    with False xr head show ?thesis
      by (simp add: sorted_by_t1_def set_IntervalSet_add)
  qed
qed

lemma sorted_IntervalSet_remove:
  "sorted_by_t1 s S \<Longrightarrow> sorted_by_t1 s (IntervalSet_remove r S)"
proof (induction S)
  case Nil
  then show ?case by simp
next
  case (Cons x xs)
  then show ?case
    using set_IntervalSet_remove [of r xs] by (auto simp: sorted_by_t1_def)
qed

lemma IntervalSet_add_position:
  "IntervalSet_add s r S
     = takeWhile (\<lambda>x. \<not> js_lt (t1 (bounds (s r))) (t1 (bounds (s x)))) S
       @ r # dropWhile (\<lambda>x. \<not> js_lt (t1 (bounds (s r))) (t1 (bounds (s x)))) S"
  by (induction S) simp_all

lemma set_apply_op: "set (apply_op s x S) \<subseteq> insert (op_ref x) (set S)"
  using set_IntervalSet_remove by (cases x) (auto simp: set_IntervalSet_add)

lemma sorted_apply_op:
  assumes "t1 (bounds (s (op_ref x))) \<noteq> NaN" and "\<forall>r \<in> set S. t1 (bounds (s r)) \<noteq> NaN"
    and "sorted_by_t1 s S"
  shows "sorted_by_t1 s (apply_op s x S)"
  using assms by (cases x) (simp_all add: sorted_IntervalSet_add sorted_IntervalSet_remove)

lemma sorted_run_ops:
  assumes "\<forall>r \<in> set S \<union> op_ref ` set ops. t1 (bounds (s r)) \<noteq> NaN"
    and "sorted_by_t1 s S"
  shows "\<forall>S' \<in> set (run_ops s ops S). sorted_by_t1 s S'"
  using assms
proof (induction ops arbitrary: S)
  case Nil
  show ?case by simp
next
  case (Cons x xs)
  have step: "sorted_by_t1 s (apply_op s x S)"
    using Cons.prems by (intro sorted_apply_op) auto
  have "\<forall>r \<in> set (apply_op s x S) \<union> op_ref ` set xs. t1 (bounds (s r)) \<noteq> NaN"
    using Cons.prems(1) set_apply_op [of s x S] by auto
  from Cons.IH [OF this step] step show ?case by simp
qed

text \<open>
  Claim C3. Take a sorted interval set and any sequence of \<open>add\<close> and \<open>remove\<close>
  operations, on intervals whose start is a number (the constructor of \<open>Bounds\<close> lets no
  other through). Then the set is sorted ascending by \<open>t1\<close> after every single operation
  of the sequence; in particular for every sequence run from the empty set. Ties are
  broken by insertion order: \<open>add\<close> puts the interval right before the first member that
  starts strictly later, so behind all members that start at the same time, and leaves
  the order of the members as it was. The one mutation in place that the timeline
  applies to an interval of a set, moving its end, leaves the order untouched.
\<close>

theorem sort_invariant:
  "((\<forall>r \<in> set S \<union> op_ref ` set ops. t1 (bounds (s r)) \<noteq> NaN) \<and> sorted_by_t1 s S
      \<longrightarrow> (\<forall>S' \<in> set (run_ops s ops S). sorted_by_t1 s S'))
   \<and> ((\<forall>r \<in> op_ref ` set ops. t1 (bounds (s r)) \<noteq> NaN)
      \<longrightarrow> (\<forall>S' \<in> set (run_ops s ops []). sorted_by_t1 s S'))
   \<and> IntervalSet_add s r S
       = takeWhile (\<lambda>x. \<not> js_lt (t1 (bounds (s r))) (t1 (bounds (s x)))) S
         @ r # dropWhile (\<lambda>x. \<not> js_lt (t1 (bounds (s r))) (t1 (bounds (s x)))) S
   \<and> sorted_by_t1 (set_t2 s r time) S = sorted_by_t1 s S"
proof -
  have "sorted_by_t1 s []" by (simp add: sorted_by_t1_def)
  moreover have "t1 (bounds (set_t2 s r time x)) = t1 (bounds (s x))" for x
    by (simp add: set_t2_def)
  then have "sorted_by_t1 (set_t2 s r time) S = sorted_by_t1 s S"
    by (simp add: sorted_by_t1_def)
  ultimately show ?thesis
    using sorted_run_ops [of S ops s] sorted_run_ops [of "[]" ops s]
      IntervalSet_add_position [of s r S]
    by auto
qed

theorem sort_invariant_witness:
  "sorted_by_t1 example_store []
   \<and> list_all (\<lambda>r. t1 (bounds (example_store r)) \<noteq> NaN) [0, 3, 1, 2]
   \<and> run_ops example_store [Add 0, Add 3, Add 1, Add 2, Remove 3, Add 3, Remove 1] []
       = [[0], [3, 0], [1, 3, 0], [1, 2, 3, 0], [1, 2, 0], [1, 2, 3, 0], [2, 3, 0]]
   \<and> list_all (sorted_by_t1 example_store)
        (run_ops example_store [Add 0, Add 3, Add 1, Add 2, Remove 3, Add 3, Remove 1] [])
   \<and> \<not> sorted_by_t1 example_store [0, 3]"
  using sort_invariant [of "[]" "[Add 0, Add 3, Add 1, Add 2, Remove 3, Add 3, Remove 1]"
          example_store 0 "Num 0"]
  by (simp add: example_store_def mk_interval_def sorted_by_t1_def js_le_def js_eq_def)

section \<open>Point queries\<close>

lemma Bounds_point_Inr: "Bounds_point p = Inr q \<Longrightarrow> q = \<lparr>t1 = p, t2 = p\<rparr>"
  by (auto simp: Bounds_point_def Bounds_new_def split: if_splits)

lemma point_query:
  "Bounds_point p = Inr q \<Longrightarrow>
   (r \<in> set (time_overlaps s S q))
     = (r \<in> set S \<and> js_le (t1 (bounds (s r))) p \<and> js_le p (t2 (bounds (s r))))"
  by (auto simp: time_overlaps_def Bounds_time_overlaps_def dest!: Bounds_point_Inr)

lemma point_query_exists:
  assumes "Bounds_new a b = Inr q0" and "js_le a p" and "js_le p b"
  shows "\<exists>q. Bounds_point p = Inr q"
  using assms
  by (cases a; cases b; cases p)
     (auto simp: Bounds_new_def Bounds_point_def js_le_def js_eq_def js_gt_def split: if_splits)

lemma current_intervals_nth:
  assumes "current_intervals s block new_intervals vb = Inr cur"
    and "i < length (interval_sets block)"
  shows "name (cur ! i) = name (interval_sets block ! i)
     \<and> (r \<in> set (interval_set (cur ! i)))
        = (r \<in> set (interval_set (interval_sets block ! i))
           \<and> js_le (t1 (bounds (s r))) (time_state vb)
           \<and> js_le (time_state vb) (t2 (bounds (s r))))"
proof -
  from assms(1) obtain q where q: "Bounds_point (time_state vb) = Inr q"
    by (auto simp: current_intervals_def split: sum.splits)
  with assms(1) have "cur ! i = (map (\<lambda>ns. \<lparr>name = name ns,
                                  interval_set = time_overlaps s (interval_set ns) q\<rparr>)
                         (interval_sets block)) ! i"
    using assms(2) by (auto simp: current_intervals_def Let_def nth_append split: if_splits)
  then show ?thesis
    using assms(2) point_query [OF q] by simp
qed

text \<open>
  Claim C2. A point query is boundary-inclusive at both ends. For a member \<open>r\<close> of the
  set \<open>S\<close> (an interval that was added and not removed) and a point \<open>p\<close> for which
  \<open>Bounds(p)\<close> is built, \<open>time_overlaps\<close> returns \<open>r\<close> exactly when
  \<open>t1 <= p <= t2\<close>. For every point within the bounds of an interval that the
  constructor accepts, \<open>Bounds(p)\<close> is built. An interval is a member once added. The last
  conjunct is the use in \<open>VBlock.current_intervals\<close>: when it returns, its \<open>i\<close>-th
  entry has the name of the block's \<open>i\<close>-th set and holds exactly the members of that
  set whose closed bounds contain the current time.
\<close>

theorem point_overlap_closed:
  "(r \<in> set S \<and> Bounds_point p = Inr q \<longrightarrow>
      (r \<in> set (time_overlaps s S q))
        = (js_le (t1 (bounds (s r))) p \<and> js_le p (t2 (bounds (s r)))))
   \<and> (Bounds_new (t1 (bounds (s r))) (t2 (bounds (s r))) = Inr q0
        \<and> js_le (t1 (bounds (s r))) p \<and> js_le p (t2 (bounds (s r)))
      \<longrightarrow> (\<exists>q'. Bounds_point p = Inr q'))
   \<and> r \<in> set (IntervalSet_add s r S)
   \<and> (current_intervals s block new_intervals vb = Inr cur \<and> i < length (interval_sets block)
      \<longrightarrow> name (cur ! i) = name (interval_sets block ! i)
        \<and> (r \<in> set (interval_set (cur ! i)))
           = (r \<in> set (interval_set (interval_sets block ! i))
              \<and> js_le (t1 (bounds (s r))) (time_state vb)
              \<and> js_le (time_state vb) (t2 (bounds (s r)))))"
  using point_query [of p q r s S]
    point_query_exists [of "t1 (bounds (s r))" "t2 (bounds (s r))" q0 p]
    current_intervals_nth [of s block new_intervals vb cur i r]
  by (simp add: set_IntervalSet_add)

theorem point_overlap_closed_witness:
  "(0::nat) \<in> set [0]
   \<and> bounds (example_store 0) = \<lparr>t1 = Num 2, t2 = Num 5\<rparr>
   \<and> Bounds_new (Num 2) (Num 5) = Inr \<lparr>t1 = Num 2, t2 = Num 5\<rparr>
   \<and> Bounds_point (Num 5) = Inr \<lparr>t1 = Num 5, t2 = Num 5\<rparr>
   \<and> time_overlaps example_store [0] \<lparr>t1 = Num 5, t2 = Num 5\<rparr> = [0]
   \<and> Bounds_point (Num 5.0001) = Inr \<lparr>t1 = Num 5.0001, t2 = Num 5.0001\<rparr>
   \<and> time_overlaps example_store [0] \<lparr>t1 = Num 5.0001, t2 = Num 5.0001\<rparr> = []
   \<and> time_overlaps example_store [0] \<lparr>t1 = Num 2, t2 = Num 2\<rparr> = [0]
   \<and> current_intervals example_store example_block [] example_vblock
       = Inr [\<lparr>name = ''_hidden'', interval_set = []\<rparr>,
              \<lparr>name = ''faces'', interval_set = [1, 2]\<rparr>]"
  using point_overlap_closed [of 0 "[0]" "Num 5" "\<lparr>t1 = Num 5, t2 = Num 5\<rparr>" example_store
          "\<lparr>t1 = Num 2, t2 = Num 5\<rparr>" example_block "[]" example_vblock
          "[\<lparr>name = ''_hidden'', interval_set = []\<rparr>, \<lparr>name = ''faces'', interval_set = [1, 2]\<rparr>]" 0]
  by (simp add: Bounds_point_def Bounds_new_def js_gt_def js_le_def js_eq_def time_overlaps_def
        Bounds_time_overlaps_def example_store_def mk_interval_def current_intervals_def
        example_block_def example_vblock_def IntervalSet_length_def Let_def)

section \<open>Construction of bounds\<close>

lemma Bounds_new_iff:
  "(Bounds_new a b = Inl InvalidRange)
     = (js_gt a b \<or> js_lt a (Num 0) \<or> js_lt b (Num 0) \<or> \<not> js_is_finite a \<or> \<not> js_is_finite b)"
  by (auto simp: Bounds_new_def)

lemma Bounds_new_Inr: "Bounds_new a b = Inr q \<Longrightarrow> t1 q = a \<and> t2 q = b"
  by (auto simp: Bounds_new_def split: if_splits)

lemma Bounds_new_Inl: "Bounds_new a b = Inl e \<Longrightarrow> e = InvalidRange"
  by (auto simp: Bounds_new_def split: if_splits)

lemma Bounds_from_json_bad:
  "x > y \<or> x < 0 \<or> y < 0 \<Longrightarrow>
     Bounds_from_json (JObj [(''t1'', JNum x), (''t2'', JNum y)]) = Inl InvalidRange"
  by (auto simp: Bounds_from_json_def json_field_def Bounds_new_def js_gt_def)

lemma Interval_from_json_bad:
  "x > y \<or> x < 0 \<or> y < 0 \<Longrightarrow>
     Interval_from_json (JObj ((''bounds'', JObj [(''t1'', JNum x), (''t2'', JNum y)]) # others)) pd
       = Inl InvalidRange"
  using Bounds_from_json_bad [of y x]
  by (simp add: Interval_from_json_def json_field_def)

text \<open>
  Claim C7. The constructor of \<open>Bounds\<close> fails with \<open>InvalidRange\<close> exactly when
  \<open>t1 > t2\<close> or an endpoint is negative or not finite, with no other error; when it
  succeeds, the bounds hold the two values as given, never clamped. Decoding goes through
  the constructor: bounds with \<open>t1 > t2\<close> or a negative endpoint fail with
  \<open>InvalidRange\<close>, and so does every interval with such bounds, in particular
  \<open>{"bounds": {"t1": 3, "t2": 1}}\<close>, and every interval set that holds it.
\<close>

theorem invalid_range_fails:
  "(Bounds_new a b = Inl InvalidRange)
     = (js_gt a b \<or> js_lt a (Num 0) \<or> js_lt b (Num 0) \<or> \<not> js_is_finite a \<or> \<not> js_is_finite b)
   \<and> (Bounds_new a b = Inr q \<longrightarrow> t1 q = a \<and> t2 q = b)
   \<and> (Bounds_new a b = Inl e \<longrightarrow> e = InvalidRange)
   \<and> (x > y \<or> x < 0 \<or> y < 0 \<longrightarrow>
        Bounds_from_json (JObj [(''t1'', JNum x), (''t2'', JNum y)]) = Inl InvalidRange
        \<and> Interval_from_json
            (JObj ((''bounds'', JObj [(''t1'', JNum x), (''t2'', JNum y)]) # others)) pd
          = Inl InvalidRange)
   \<and> Interval_from_json (JObj [(''bounds'', JObj [(''t1'', JNum 3), (''t2'', JNum 1)])]) pd
       = Inl InvalidRange
   \<and> IntervalSet_from_json
       (JArr [JObj [(''bounds'', JObj [(''t1'', JNum 3), (''t2'', JNum 1)])]]) pd h
       = Inl InvalidRange"
proof -
  have i: "Interval_from_json (JObj [(''bounds'', JObj [(''t1'', JNum 3), (''t2'', JNum 1)])]) pd
       = Inl InvalidRange"
    using Interval_from_json_bad [of 1 3 "[]" pd] by simp
  then have s: "IntervalSet_from_json
       (JArr [JObj [(''bounds'', JObj [(''t1'', JNum 3), (''t2'', JNum 1)])]]) pd h
       = Inl InvalidRange"
    by (simp add: IntervalSet_from_json_def)
  show ?thesis
    using Bounds_new_iff [of a b] Bounds_new_Inr [of a b q] Bounds_new_Inl [of a b e]
      Bounds_from_json_bad [of y x] Interval_from_json_bad [of y x others pd] i s
    by blast
qed

theorem invalid_range_fails_witness:
  "Bounds_new (Num 3) (Num 1) = Inl InvalidRange
   \<and> Bounds_new (Num (-1)) (Num 2) = Inl InvalidRange
   \<and> Bounds_new (Num 0) PosInf = Inl InvalidRange
   \<and> Bounds_new NaN NaN = Inl InvalidRange
   \<and> Bounds_new (Num 1) (Num 3) = Inr \<lparr>t1 = Num 1, t2 = Num 3\<rparr>
   \<and> Bounds_from_json (JObj [(''t1'', JNum 3), (''t2'', JNum 1)]) = Inl InvalidRange
   \<and> Interval_from_json (raw_interval 3 1) no_payload = Inl InvalidRange
   \<and> Interval_from_json (raw_interval 1 3) no_payload
       = Inr \<lparr>bounds = \<lparr>t1 = Num 1, t2 = Num 3\<rparr>,
              data = \<lparr>spatial_type = SpatialType_Other, metadata = []\<rparr>\<rparr>"
  using invalid_range_fails [of "Num 3" "Num 1" "\<lparr>t1 = Num 1, t2 = Num 3\<rparr>" InvalidRange 3 1
          "[(''data'', JNull)]" no_payload empty_heap]
        invalid_range_fails [of "Num 1" "Num 3" "\<lparr>t1 = Num 1, t2 = Num 3\<rparr>" InvalidRange 3 1
          "[(''data'', JNull)]" no_payload empty_heap]
  by (simp add: Bounds_new_def js_gt_def raw_interval_def Interval_from_json_def
        Bounds_from_json_def json_field_def no_payload_def)

section \<open>Properties of the block component\<close>

lemma js_map_Inl:
  "js_map f xs h = Inl e \<Longrightarrow> \<exists>x \<in> set xs. \<exists>h1. f x h1 = Inl e"
proof (induction xs arbitrary: h)
  case Nil
  then show ?case by simp
next
  case (Cons x xs)
  show ?case
  proof (cases "f x h")
    case (Inl e')
    with Cons.prems have "e' = e" by simp
    with Inl show ?thesis by auto
  next
    case (Inr p)
    obtain y h1 where p: "p = (y, h1)" by (cases p)
    with Inr Cons.prems have "js_map f xs h1 = Inl e"
      by (auto split: sum.splits prod.splits)
    from Cons.IH [OF this] show ?thesis by auto
  qed
qed

lemma show_in_timeline_prefix: "show_in_timeline k = (\<not> prefix ''_'' k)"
  by (cases k) (auto simp: show_in_timeline_def)

lemma js_map_rel:
  assumes "\<And>x h y h'. f x h = Inr (y, h') \<Longrightarrow> P x y"
    and "js_map f xs h = Inr (ys, h')"
  shows "list_all2 P xs ys"
  using assms(2)
proof (induction xs arbitrary: h ys)
  case Nil
  then show ?case by simp
next
  case (Cons x xs)
  from Cons.prems obtain y h1 ys1 where
    fx: "f x h = Inr (y, h1)" and rest: "js_map f xs h1 = Inr (ys1, h')" and ys: "ys = y # ys1"
    by (auto split: sum.splits prod.splits)
  have "P x y" using assms(1) fx by simp
  moreover have "list_all2 P xs ys1"
    using Cons.IH [OF rest] .
  ultimately show ?case using ys by simp
qed

lemma named_set_name:
  "named_interval_set_from_json from_json vd rs h = Inr (ns, h') \<Longrightarrow> name ns = raw_name rs"
  by (auto simp: named_interval_set_from_json_def split: sum.splits prod.splits)

lemma block_names:
  assumes "interval_block_from_json from_json vd rb h = Inr (b, h')"
  shows "video_id b = raw_video_id rb
         \<and> map name (interval_sets b) = map raw_name (raw_interval_sets rb)"
proof -
  from assms obtain sets where
    inner: "js_map (named_interval_set_from_json from_json vd) (raw_interval_sets rb) h
              = Inr (sets, h')"
    and b: "b = \<lparr>interval_sets = sets, video_id = raw_video_id rb\<rparr>"
    by (auto simp: interval_block_from_json_def split: sum.splits prod.splits)
  have "list_all2 (\<lambda>rs ns. name ns = raw_name rs) (raw_interval_sets rb) sets"
    using js_map_rel [where P = "\<lambda>rs ns. name ns = raw_name rs", OF named_set_name inner] .
  then have "map name sets = map raw_name (raw_interval_sets rb)"
    by (induction rule: list_all2_induct) simp_all
  with b show ?thesis by simp
qed

lemma blocks_names:
  assumes "interval_blocks_from_json from_json vd obj h = Inr (blocks, h')"
  shows "map video_id blocks = map raw_video_id obj
     \<and> map (\<lambda>b. map name (interval_sets b)) blocks
         = map (\<lambda>rb. map raw_name (raw_interval_sets rb)) obj"
proof -
  have "list_all2 (\<lambda>rb b. video_id b = raw_video_id rb
         \<and> map name (interval_sets b) = map raw_name (raw_interval_sets rb)) obj blocks"
    using js_map_rel [where P = "\<lambda>rb b. video_id b = raw_video_id rb
         \<and> map name (interval_sets b) = map raw_name (raw_interval_sets rb)",
         OF block_names assms [unfolded interval_blocks_from_json_def]] .
  then show ?thesis
    by (induction rule: list_all2_induct) simp_all
qed

lemma decode_failure:
  assumes "interval_blocks_from_json from_json vd obj h = Inl e"
  shows "\<exists>rb \<in> set obj. \<exists>rs \<in> set (raw_interval_sets rb). \<exists>h1.
           from_json (raw_interval_set rs) vd h1 = Inl e"
proof -
  from js_map_Inl [OF assms [unfolded interval_blocks_from_json_def]]
  obtain rb h1 where rb: "rb \<in> set obj"
    and "interval_block_from_json from_json vd rb h1 = Inl e"
    by blast
  then have "js_map (named_interval_set_from_json from_json vd) (raw_interval_sets rb) h1 = Inl e"
    by (auto simp: interval_block_from_json_def split: sum.splits prod.splits)
  from js_map_Inl [OF this] obtain rs h2 where rs: "rs \<in> set (raw_interval_sets rb)"
    and "named_interval_set_from_json from_json vd rs h2 = Inl e"
    by blast
  then have "from_json (raw_interval_set rs) vd h2 = Inl e"
    by (auto simp: named_interval_set_from_json_def split: sum.splits prod.splits)
  with rb rs show ?thesis by blast
qed

lemma render_timeline_track:
  "VBlock_render s settings block new_intervals vb = Inr v \<Longrightarrow>
   timeline_track v
     = (if settings_show_timeline settings \<and> (show_timeline vb \<or> expand vb)
        then Some (filter (\<lambda>ns. \<not> prefix ''_'' (name ns)) (interval_sets block))
        else None)"
  by (auto simp: VBlock_render_def show_in_timeline_prefix split: sum.splits)

text \<open>
  Claim C8. When \<open>interval_blocks_from_json\<close> returns, the blocks carry the video ids
  and, set by set and in order, exactly the channel names of the input: no name is
  changed and no set is dropped, whatever its name begins with. It fails only with an
  error that \<open>IntervalSet.from_json\<close> raised on one of the sets. When \<open>render\<close> draws
  the timeline track, the track receives the block's sets whose name does not begin with
  \<open>_\<close>, and only those.
\<close>

theorem channel_names_preserved:
  "(interval_blocks_from_json from_json vd obj h = Inr (blocks, h') \<longrightarrow>
      map video_id blocks = map raw_video_id obj
      \<and> map (\<lambda>b. map name (interval_sets b)) blocks
          = map (\<lambda>rb. map raw_name (raw_interval_sets rb)) obj)
   \<and> (interval_blocks_from_json from_json vd obj h = Inl e \<longrightarrow>
        (\<exists>rb \<in> set obj. \<exists>rs \<in> set (raw_interval_sets rb). \<exists>h1.
           from_json (raw_interval_set rs) vd h1 = Inl e))
   \<and> (VBlock_render s settings block new_intervals vb = Inr v \<longrightarrow>
        timeline_track v
          = (if settings_show_timeline settings \<and> (show_timeline vb \<or> expand vb)
             then Some (filter (\<lambda>ns. \<not> prefix ''_'' (name ns)) (interval_sets block))
             else None))"
  using blocks_names [of from_json vd obj h blocks h'] decode_failure [of from_json vd obj h e]
    render_timeline_track [of s settings block new_intervals vb v]
  by blast

theorem channel_names_preserved_witness:
  "(\<exists>H. interval_blocks_from_json IntervalSet_from_json no_payload example_obj empty_heap
        = Inr ([\<lparr>interval_sets = [\<lparr>name = ''_hidden'', interval_set = [0]\<rparr>,
                                   \<lparr>name = ''faces'', interval_set = [2, 1]\<rparr>],
                 video_id = 7\<rparr>], H))
   \<and> interval_blocks_from_json IntervalSet_from_json no_payload bad_obj empty_heap
       = Inl InvalidRange
   \<and> (\<exists>v. VBlock_render example_store all_shown example_block [] example_vblock = Inr v
          \<and> timeline_track v = Some [\<lparr>name = ''faces'', interval_set = [1, 2]\<rparr>])"
proof -
  have d: "\<exists>H. interval_blocks_from_json IntervalSet_from_json no_payload example_obj empty_heap
        = Inr ([\<lparr>interval_sets = [\<lparr>name = ''_hidden'', interval_set = [0]\<rparr>,
                                   \<lparr>name = ''faces'', interval_set = [2, 1]\<rparr>],
                 video_id = 7\<rparr>], H)"
    by (simp add: interval_blocks_from_json_def interval_block_from_json_def
          named_interval_set_from_json_def IntervalSet_from_json_def example_obj_def
          raw_interval_def Interval_from_json_def Bounds_from_json_def json_field_def
          Bounds_new_def js_gt_def no_payload_def add_decoded_def Interval_new_def
          empty_heap_def Let_def)
  have b: "interval_blocks_from_json IntervalSet_from_json no_payload bad_obj empty_heap
       = Inl InvalidRange"
    by (simp add: interval_blocks_from_json_def interval_block_from_json_def
          named_interval_set_from_json_def IntervalSet_from_json_def bad_obj_def
          raw_interval_def Interval_from_json_def Bounds_from_json_def json_field_def
          Bounds_new_def js_gt_def)
  obtain v where v: "VBlock_render example_store all_shown example_block [] example_vblock = Inr v"
    by (simp add: VBlock_render_def current_intervals_def Bounds_point_def Bounds_new_def
          js_gt_def example_vblock_def Let_def)
  have "timeline_track v = Some [\<lparr>name = ''faces'', interval_set = [1, 2]\<rparr>]"
    using v channel_names_preserved [of IntervalSet_from_json no_payload bad_obj empty_heap
            "[]" empty_heap InvalidRange example_store all_shown example_block "[]"
            example_vblock v]
    by (simp add: all_shown_def example_vblock_def example_block_def)
  with d b v show ?thesis by blast
qed

section \<open>The constructor of the block component\<close>

lemma arbitrary_interval_nonempty:
  "0 < IntervalSet_length S \<Longrightarrow> \<exists>r. arbitrary_interval S = Some r"
  by (cases S) (simp_all add: IntervalSet_length_def arbitrary_interval_def)

lemma first_time_reduce_total: "\<exists>m. first_time_reduce s xs n = Inr m"
proof (induction xs arbitrary: n)
  case Nil
  show ?case by simp
next
  case (Cons ns xs)
  show ?case
  proof (cases "0 < IntervalSet_length (interval_set ns)")
    case True
    then obtain r where "arbitrary_interval (interval_set ns) = Some r"
      using arbitrary_interval_nonempty by blast
    with True Cons show ?thesis by simp
  next
    case False
    with Cons show ?thesis by simp
  qed
qed

lemma find_captions_total: "\<exists>c'. find_captions s xs c = Inr c'"
proof (induction xs arbitrary: c)
  case Nil
  show ?case by simp
next
  case (Cons ns xs)
  show ?case
  proof (cases "0 < IntervalSet_length (interval_set ns)")
    case True
    then obtain r where "arbitrary_interval (interval_set ns) = Some r"
      using arbitrary_interval_nonempty by blast
    with True Cons show ?thesis by simp
  next
    case False
    with Cons show ?thesis by simp
  qed
qed

lemma filter_differs_Some: "\<exists>ys. filter_differs s (Some ex) xs = Inr ys"
  by (induction xs) auto

lemma filter_differs_example:
  "\<exists>ys. filter_differs s (arbitrary_interval S) (IntervalSet_to_list S) = Inr ys"
  by (cases S)
     (simp_all add: arbitrary_interval_def IntervalSet_to_list_def filter_differs_Some
        del: filter_differs.simps(2))

lemma VBlock_constructor_empty:
  "interval_sets block = [] \<Longrightarrow> VBlock_constructor s block = Inl TypeError"
  by (simp add: VBlock_constructor_def)

lemma VBlock_constructor_nonempty:
  assumes "interval_sets block \<noteq> []"
  shows "\<exists>vb. VBlock_constructor s block = Inr vb"
proof -
  obtain ns0 rest where sets: "interval_sets block = ns0 # rest"
    using assms by (cases "interval_sets block") auto
  obtain ft where ft: "first_time_reduce s
             (filter (\<lambda>ns. show_in_timeline (name ns)) (interval_sets block)) PosInf = Inr ft"
    using first_time_reduce_total by blast
  obtain caps where caps: "find_captions s (interval_sets block) None = Inr caps"
    using find_captions_total by blast
  obtain ys where ys: "filter_differs s (arbitrary_interval (interval_set ns0))
                         (IntervalSet_to_list (interval_set ns0)) = Inr ys"
    using filter_differs_example by blast
  show ?thesis
    unfolding VBlock_constructor_def ft caps using sets ys by (simp add: Let_def)
qed

text \<open>
  Claim C9, as amended. The constructor of \<open>VBlock\<close> throws, a \<open>TypeError\<close>, exactly
  when the list of interval sets is empty, and returns for every other block. An empty
  first set does not make it throw: \<open>arbitrary_interval()\<close> is \<open>null\<close> then, but its
  bounds are read only by the callback of the filter, which runs once for each interval
  of that same, empty, set.
\<close>

theorem VBlock_constructor_total_iff:
  "(VBlock_constructor s block = Inl TypeError) = (interval_sets block = [])
   \<and> (\<exists>vb. VBlock_constructor s block = Inr vb) = (interval_sets block \<noteq> [])"
  using VBlock_constructor_empty [of block s] VBlock_constructor_nonempty [of block s]
  by (cases "interval_sets block = []") auto

text \<open>
  Claim C9 as stated fails for the block whose only interval set is empty: the
  constructor returns, with the timeline hidden and the time at \<open>Infinity\<close>.
\<close>

theorem VBlock_constructor_empty_first_set:
  "VBlock_constructor example_store
     \<lparr>interval_sets = [\<lparr>name = ''faces'', interval_set = []\<rparr>], video_id = 1\<rparr>
   = Inr \<lparr>time_state = PosInf, captions = None, show_timeline = False, expand = False\<rparr>"
  by (simp add: VBlock_constructor_def show_in_timeline_def IntervalSet_length_def
        arbitrary_interval_def IntervalSet_to_list_def)

section \<open>Properties of the timeline component\<close>

lemma map_drawn_render_canvas:
  "map drawn (render_canvas s (Some S) w color)
     = filter (\<lambda>r. js_gt (t2 (bounds (s r))) (start w) \<and> js_lt (t1 (bounds (s r))) (end' w)) S"
  by (induction S) (simp_all add: render_canvas_def IntervalSet_to_list_def)

text \<open>
  Claim C6. The timeline row fills one rectangle for each interval of its set with
  \<open>t2 > start\<close> and \<open>t1 < end\<close> of the window, in the order of the set, and none for any
  other interval. Both edges are exclusive: the caption \<open>[2, 5]\<close> is not drawn in the
  window \<open>[5, 9]\<close>, where it ends, nor in the window \<open>[0, 2]\<close>, where it starts, and it
  is drawn in the window \<open>[4, 9]\<close>.
\<close>

theorem range_window_overlap:
  "map drawn (render_canvas s (Some S) w color)
     = filter (\<lambda>r. js_gt (t2 (bounds (s r))) (start w) \<and> js_lt (t1 (bounds (s r))) (end' w)) S
   \<and> (r \<in> drawn ` set (render_canvas s (Some S) w color))
     = (r \<in> set S \<and> js_gt (t2 (bounds (s r))) (start w) \<and> js_lt (t1 (bounds (s r))) (end' w))
   \<and> render_canvas example_store (Some [0]) \<lparr>start = Num 5, end' = Num 9\<rparr> ''blue'' = []
   \<and> render_canvas example_store (Some [0]) \<lparr>start = Num 0, end' = Num 2\<rparr> ''blue'' = []
   \<and> render_canvas example_store (Some [0]) \<lparr>start = Num 4, end' = Num 9\<rparr> ''blue''
       = [\<lparr>fillStyle = ''blue'', drawn = 0\<rparr>]"
proof -
  have a: "map drawn (render_canvas s (Some S) w color)
     = filter (\<lambda>r. js_gt (t2 (bounds (s r))) (start w) \<and> js_lt (t1 (bounds (s r))) (end' w)) S"
    by (rule map_drawn_render_canvas)
  have "drawn ` set (render_canvas s (Some S) w color)
          = set (map drawn (render_canvas s (Some S) w color))"
    by simp
  then have b: "(r \<in> drawn ` set (render_canvas s (Some S) w color))
     = (r \<in> set S \<and> js_gt (t2 (bounds (s r))) (start w) \<and> js_lt (t1 (bounds (s r))) (end' w))"
    unfolding a by auto
  have c: "render_canvas example_store (Some [0]) \<lparr>start = Num 5, end' = Num 9\<rparr> ''blue'' = []"
    by (simp add: render_canvas_def IntervalSet_to_list_def example_store_def mk_interval_def
          js_gt_def)
  have d: "render_canvas example_store (Some [0]) \<lparr>start = Num 0, end' = Num 2\<rparr> ''blue'' = []"
    by (simp add: render_canvas_def IntervalSet_to_list_def example_store_def mk_interval_def
          js_gt_def)
  have e: "render_canvas example_store (Some [0]) \<lparr>start = Num 4, end' = Num 9\<rparr> ''blue''
       = [\<lparr>fillStyle = ''blue'', drawn = 0\<rparr>]"
    by (simp add: render_canvas_def IntervalSet_to_list_def example_store_def mk_interval_def
          js_gt_def fill_style_of_def)
  show ?thesis using a b c d e by blast
qed

lemma set_t2_same: "t2 (bounds (set_t2 s r time r)) = time \<and> t1 (bounds (set_t2 s r time r)) = t1 (bounds (s r))
  \<and> data (set_t2 s r time r) = data (s r)"
  by (simp add: set_t2_def)

lemma set_t2_other: "x \<noteq> r \<Longrightarrow> set_t2 s r time x = s x"
  by (simp add: set_t2_def)

text \<open>
  Claim C1, as amended. Moving the end of the interval in progress to a time that is not
  later than its start, or that equals its current end, changes nothing. Any other time
  later than the start becomes the new end, whether it lies after or before the current
  end: the start stays, the end stays later than the start, and no other interval
  changes. The step is a total function: it never fails. The last conjunct is
  \<open>componentDidUpdate\<close> with a positive interval in progress: it is that step, on the set
  of new positive intervals.
\<close>

theorem advance_new_interval_cases:
  "(js_le time (t1 (bounds (fst w r))) \<or> js_eq time (t2 (bounds (fst w r)))
      \<longrightarrow> advance_new_interval time r w = w)
   \<and> (js_gt time (t1 (bounds (fst w r))) \<and> js_ne time (t2 (bounds (fst w r)))
      \<longrightarrow> t2 (bounds (fst (advance_new_interval time r w) r)) = time
        \<and> t1 (bounds (fst (advance_new_interval time r w) r)) = t1 (bounds (fst w r))
        \<and> js_gt (t2 (bounds (fst (advance_new_interval time r w) r)))
                (t1 (bounds (fst (advance_new_interval time r w) r)))
        \<and> (\<forall>x. x \<noteq> r \<longrightarrow> fst (advance_new_interval time r w) x = fst w x))
   \<and> componentDidUpdate time
        \<lparr>shift_held = sh, new_positive_interval = Some r, new_negative_interval = None\<rparr>
        (s, ls)
      = (fst (advance_new_interval time r (s, new_positive_intervals ls)),
         \<lparr>new_positive_intervals = snd (advance_new_interval time r (s, new_positive_intervals ls)),
          new_negative_intervals = new_negative_intervals ls\<rparr>)"
proof -
  have a: "advance_new_interval time r w = w"
    if "js_le time (t1 (bounds (fst w r))) \<or> js_eq time (t2 (bounds (fst w r)))"
    using that js_le_not_gt [of time "t1 (bounds (fst w r))"]
    by (auto simp: advance_new_interval_def js_ne_def)
  have b: "t2 (bounds (fst (advance_new_interval time r w) r)) = time
        \<and> t1 (bounds (fst (advance_new_interval time r w) r)) = t1 (bounds (fst w r))
        \<and> js_gt (t2 (bounds (fst (advance_new_interval time r w) r)))
                (t1 (bounds (fst (advance_new_interval time r w) r)))
        \<and> (\<forall>x. x \<noteq> r \<longrightarrow> fst (advance_new_interval time r w) x = fst w x)"
    if "js_gt time (t1 (bounds (fst w r))) \<and> js_ne time (t2 (bounds (fst w r)))"
    using that by (simp add: advance_new_interval_def Let_def set_t2_same set_t2_other)
  have c: "componentDidUpdate time
        \<lparr>shift_held = sh, new_positive_interval = Some r, new_negative_interval = None\<rparr>
        (s, ls)
      = (fst (advance_new_interval time r (s, new_positive_intervals ls)),
         \<lparr>new_positive_intervals = snd (advance_new_interval time r (s, new_positive_intervals ls)),
          new_negative_intervals = new_negative_intervals ls\<rparr>)"
    by (simp add: componentDidUpdate_def Let_def)
  show ?thesis using a b c by blast
qed

theorem advance_new_interval_cases_witness:
  "js_le (Num 1) (t1 (bounds (example_store 3)))
   \<and> advance_new_interval (Num 1) 3 (example_store, [3]) = (example_store, [3])
   \<and> js_eq (Num 5) (t2 (bounds (example_store 3)))
   \<and> advance_new_interval (Num 5) 3 (example_store, [3]) = (example_store, [3])
   \<and> js_gt (Num 7) (t1 (bounds (example_store 3))) \<and> js_ne (Num 7) (t2 (bounds (example_store 3)))
   \<and> t2 (bounds (fst (advance_new_interval (Num 7) 3 (example_store, [3])) 3)) = Num 7
   \<and> snd (advance_new_interval (Num 7) 3 (example_store, [3])) = [3]"
  using advance_new_interval_cases [of "Num 1" "(example_store, [3])" 3]
        advance_new_interval_cases [of "Num 5" "(example_store, [3])" 3]
        advance_new_interval_cases [of "Num 7" "(example_store, [3])" 3]
  by (simp add: example_store_def mk_interval_def js_le_def js_gt_def js_ne_def js_eq_def
        advance_new_interval_def Let_def)

text \<open>
  Claim C1 as stated fails when the playhead moves back: the interval \<open>[1, 5]\<close> in
  progress, updated at time 3 (not later than its current end 5), ends at 3 afterwards.
\<close>

theorem advance_backwards_shrinks:
  "js_le (Num 3) (t2 (bounds (example_store 3)))
   \<and> t2 (bounds (example_store 3)) = Num 5
   \<and> t2 (bounds (fst (componentDidUpdate (Num 3)
          \<lparr>shift_held = False, new_positive_interval = Some 3, new_negative_interval = None\<rparr>
          (example_store, \<lparr>new_positive_intervals = [3], new_negative_intervals = []\<rparr>)) 3))
       = Num 3
   \<and> js_lt (t2 (bounds (fst (componentDidUpdate (Num 3)
          \<lparr>shift_held = False, new_positive_interval = Some 3, new_negative_interval = None\<rparr>
          (example_store, \<lparr>new_positive_intervals = [3], new_negative_intervals = []\<rparr>)) 3)))
        (t2 (bounds (example_store 3)))
   \<and> fst (componentDidUpdate (Num 3)
          \<lparr>shift_held = False, new_positive_interval = Some 3, new_negative_interval = None\<rparr>
          (example_store, \<lparr>new_positive_intervals = [3], new_negative_intervals = []\<rparr>))
       \<noteq> example_store"
proof -
  have a: "fst (componentDidUpdate (Num 3)
          \<lparr>shift_held = False, new_positive_interval = Some 3, new_negative_interval = None\<rparr>
          (example_store, \<lparr>new_positive_intervals = [3], new_negative_intervals = []\<rparr>))
        = set_t2 example_store 3 (Num 3)"
    by (simp add: componentDidUpdate_def advance_new_interval_def Let_def
          example_store_def mk_interval_def js_gt_def js_ne_def js_eq_def)
  have b: "t2 (bounds (example_store 3)) = Num 5"
    by (simp add: example_store_def mk_interval_def)
  have c: "t2 (bounds (set_t2 example_store 3 (Num 3) 3)) = Num 3"
    by (simp add: set_t2_def)
  have d: "set_t2 example_store 3 (Num 3) \<noteq> example_store"
    using b c by auto
  show ?thesis
    unfolding a using b c d by (simp add: js_le_def)
qed

end
